theory Spec2Isabelle
  imports Main "HOL-Library.Sublist" "HOL-Library.AList" "HOL-Library.Char_ord"
    "HOL-Library.List_Lexorder"
begin

section \<open>Exceptions\<close>

text \<open>
  The program raises and catches Python exceptions. Only two classes are told apart by
  the handlers of \<^verbatim>\<open>app.py\<close>: \<^verbatim>\<open>ValueError\<close> (the spec's InvalidInput and
  FetchError) and every other subclass of \<^verbatim>\<open>Exception\<close>. Each carries \<^verbatim>\<open>str(e)\<close>.
\<close>

datatype exn = ValueError string | OtherException string

section \<open>URL title extractor\<close>

text \<open>
  \<^verbatim>\<open>str.split(sep)\<close> for a non-empty separator: the pieces between the non-overlapping
  occurrences of \<^verbatim>\<open>sep\<close>, found from left to right. The second argument collects the
  piece being read. Python raises ValueError on an empty separator; the only separator
  used by the program is the literal \<^verbatim>\<open>"wiki/"\<close>.
\<close>

function py_split :: "string \<Rightarrow> string \<Rightarrow> string \<Rightarrow> string list" where
  "py_split sep cur [] = [cur]"
| "py_split sep cur (c # cs) =
     (if sep \<noteq> [] \<and> prefix sep (c # cs)
      then cur # py_split sep [] (drop (length sep) (c # cs))
      else py_split sep (cur @ [c]) cs)"
  by pat_completeness auto
termination
  by (relation "measure (\<lambda>(sep, cur, s). length s)") auto

definition startswith :: "string \<Rightarrow> string \<Rightarrow> bool" where
  "startswith s p = prefix p s"

definition wiki_prefix :: string where
  "wiki_prefix = ''https://en.wikipedia.org/wiki/''"

text \<open>
  \<^verbatim>\<open>extract_title\<close> (lines 10-13). \<^verbatim>\<open>url.split("wiki/")[1]\<close> is the second piece of
  the split; indexing a one-element list would raise IndexError.
\<close>

definition extract_title :: "string \<Rightarrow> exn + string" where
  "extract_title url =
     (if \<not> startswith url wiki_prefix
      then Inl (ValueError ''URL must be from en.wikipedia.org'')
      else (case py_split ''wiki/'' [] url of
              p0 # p1 # ps \<Rightarrow> Inr p1
            | _ \<Rightarrow> Inl (OtherException ''list index out of range'')))"

section \<open>Date validator\<close>

text \<open>
  \<^verbatim>\<open>datetime.strptime(date_str, '%Y%m%d')\<close> is library code. CPython compiles the
  format into the regular expression
  \<^verbatim>\<open>(?P<Y>\d\d\d\d)(?P<m>1[0-2]|0[1-9]|[1-9])(?P<d>3[0-1]|[1-2]\d|0[1-9]|[1-9]| [1-9])\<close>,
  matches it at the start of the string (alternatives tried from left to right, with
  backtracking), raises ValueError when nothing matches or when text remains after the
  match, converts the three groups with \<^verbatim>\<open>int\<close> and builds the date, which raises
  ValueError for a year below 1 or a day the month does not have. The library manual
  says the same of the directives: for \<^verbatim>\<open>%m\<close> and \<^verbatim>\<open>%d\<close> the leading zero is optional
  when parsing. Digits are the ASCII digits here.

  A character class is the string of its characters; an alternative is a list of
  classes; a group is the list of its alternatives in the order of the expression.
\<close>

definition digits :: string where
  "digits = ''0123456789''"

definition nonzero :: string where
  "nonzero = ''123456789''"

definition is_digit :: "char \<Rightarrow> bool" where
  "is_digit c = (c \<in> set digits)"

definition digit_val :: "char \<Rightarrow> nat" where
  "digit_val c = (if is_digit c then of_char c - 48 else 0)"

fun match_classes :: "string list \<Rightarrow> string \<Rightarrow> (string \<times> string) option" where
  "match_classes [] s = Some ([], s)"
| "match_classes (cl # cls) [] = None"
| "match_classes (cl # cls) (c # s) =
     (if c \<in> set cl
      then (case match_classes cls s of
              None \<Rightarrow> None
            | Some (m, r) \<Rightarrow> Some (c # m, r))
      else None)"

definition alternatives :: "string list list \<Rightarrow> string \<Rightarrow> (string \<times> string) list" where
  "alternatives alts s = List.map_filter (\<lambda>cls. match_classes cls s) alts"

definition re_Y :: "string list list" where
  "re_Y = [[digits, digits, digits, digits]]"

definition re_m :: "string list list" where
  "re_m = [[''1'', ''012''], [''0'', nonzero], [nonzero]]"

definition re_d :: "string list list" where
  "re_d = [[''3'', ''01''], [''12'', digits], [''0'', nonzero], [nonzero], ['' '', nonzero]]"

text \<open>
  The first match in backtracking order: the groups Y, m, d and the text left over.
\<close>

definition regex_match :: "string \<Rightarrow> (string \<times> string \<times> string \<times> string) option" where
  "regex_match s =
     (case [(y, m, d, r3). (y, r1) \<leftarrow> alternatives re_Y s,
                           (m, r2) \<leftarrow> alternatives re_m r1,
                           (d, r3) \<leftarrow> alternatives re_d r2] of
        [] \<Rightarrow> None
      | x # xs \<Rightarrow> Some x)"

text \<open>\<^verbatim>\<open>int(s)\<close> on a matched group: leading blanks are skipped, the rest is decimal.\<close>

definition py_int :: "string \<Rightarrow> nat" where
  "py_int s = foldl (\<lambda>n c. 10 * n + digit_val c) 0 (dropWhile (\<lambda>c. c = CHR '' '') s)"

type_synonym date = "nat \<times> nat \<times> nat"

definition is_leap :: "nat \<Rightarrow> bool" where
  "is_leap y = (y mod 4 = 0 \<and> (y mod 100 \<noteq> 0 \<or> y mod 400 = 0))"

definition days_in_month :: "nat \<Rightarrow> nat \<Rightarrow> nat" where
  "days_in_month y m =
     (if m = 2 then (if is_leap y then 29 else 28)
      else if m = 4 \<or> m = 6 \<or> m = 9 \<or> m = 11 then 30 else 31)"

text \<open>The dates that \<^verbatim>\<open>datetime.date(year, month, day)\<close> accepts.\<close>

definition valid_date :: "date \<Rightarrow> bool" where
  "valid_date dt =
     (case dt of (y, m, d) \<Rightarrow>
        1 \<le> y \<and> y \<le> 9999 \<and> 1 \<le> m \<and> m \<le> 12 \<and> 1 \<le> d \<and> d \<le> days_in_month y m)"

text \<open>
  \<^verbatim>\<open>None\<close> stands for the ValueError that \<^verbatim>\<open>strptime\<close> raises; its message is dropped
  by the only caller.
\<close>

definition strptime_Ymd :: "string \<Rightarrow> date option" where
  "strptime_Ymd s =
     (case regex_match s of
        None \<Rightarrow> None
      | Some (y, m, d, r) \<Rightarrow>
          if r \<noteq> [] then None
          else if valid_date (py_int y, py_int m, py_int d)
               then Some (py_int y, py_int m, py_int d)
               else None)"

text \<open>\<^verbatim>\<open>validate_date\<close> (lines 31-36).\<close>

definition validate_date :: "string \<Rightarrow> exn + string" where
  "validate_date date_str =
     (case strptime_Ymd date_str of
        Some dt \<Rightarrow> Inr date_str
      | None \<Rightarrow> Inl (ValueError ''Date must be in YYYYMMDD format''))"

text \<open>
  The spec's reading of a well-formed date, for comparison with \<^verbatim>\<open>validate_date\<close>:
  exactly eight digits, four of the year, two of the month and two of the day, that
  name a date of the calendar.
\<close>

definition is_YYYYMMDD :: "string \<Rightarrow> bool" where
  "is_YYYYMMDD s =
     (length s = 8 \<and> list_all is_digit s \<and>
      valid_date (py_int (take 4 s), py_int (take 2 (drop 4 s)), py_int (drop 6 s)))"

section \<open>Default date range\<close>

text \<open>
  \<^verbatim>\<open>datetime.now() - timedelta(days=30)\<close> is the date thirty days before the clock's;
  Python raises OverflowError when that date would lie before 0001-01-01 (\<^verbatim>\<open>None\<close>
  here). \<^verbatim>\<open>strftime('%Y%m%d')\<close> writes the year in four digits (for the years from 1000
  on, on every platform) and the month and the day in two.
\<close>

fun prev_day :: "date \<Rightarrow> date option" where
  "prev_day (y, m, d) =
     (if 1 < d then Some (y, m, d - 1)
      else if 1 < m then Some (y, m - 1, days_in_month y (m - 1))
      else if 1 < y then Some (y - 1, 12, 31)
      else None)"

fun minus_days :: "date \<Rightarrow> nat \<Rightarrow> date option" where
  "minus_days dt 0 = Some dt"
| "minus_days dt (Suc n) =
     (case prev_day dt of None \<Rightarrow> None | Some p \<Rightarrow> minus_days p n)"

definition digit_char :: "nat \<Rightarrow> char" where
  "digit_char n = digits ! (n mod 10)"

definition strftime_Ymd :: "date \<Rightarrow> string" where
  "strftime_Ymd dt =
     (case dt of (y, m, d) \<Rightarrow>
        [digit_char (y div 1000), digit_char (y div 100), digit_char (y div 10), digit_char y,
         digit_char (m div 10), digit_char m, digit_char (d div 10), digit_char d])"

text \<open>Lines 42-45: the pair (start_date, end_date) computed from the clock.\<close>

definition default_dates :: "date \<Rightarrow> exn + string \<times> string" where
  "default_dates end_date_obj =
     (case minus_days end_date_obj 30 of
        None \<Rightarrow> Inl (OtherException ''date value out of range'')
      | Some start_date_obj \<Rightarrow> Inr (strftime_Ymd start_date_obj, strftime_Ymd end_date_obj))"

section \<open>Pageview fetcher\<close>

text \<open>
  What one outbound request does, as far as lines 21-24 tell it apart:
  \<^verbatim>\<open>requests.get\<close> raises (no response at all), \<^verbatim>\<open>raise_for_status\<close> raises HTTPError
  (a non-success status), reading \<^verbatim>\<open>response.json()['items']\<close> or an item's fields raises
  (a body of the wrong shape), or the body holds a list of (timestamp, views) items.
  Each failure carries \<^verbatim>\<open>str(e)\<close>.
\<close>

datatype outcome =
    ConnectionFailure string
  | HTTPError string
  | BadBody string
  | Items "(string \<times> int) list"

type_synonym series = "(string \<times> int) list"

datatype cell = DateCell string | CountCell int

text \<open>A DataFrame: its labelled columns, in order. \<^verbatim>\<open>pd.DataFrame()\<close> has none.\<close>

type_synonym dataframe = "(string \<times> cell list) list"

text \<open>
  The world outside the program: the clock, the remote endpoint (its answer to a URL may
  depend on how many requests were made before) and the charting library, whose result
  or exception for a table and its two series labels is not in the repository.
\<close>

record 'fig env =
  clock :: date
  remote :: "nat \<Rightarrow> string \<Rightarrow> outcome"
  px_line :: "dataframe \<Rightarrow> string list \<Rightarrow> exn + 'fig"

text \<open>
  The process state: the memo table that \<^verbatim>\<open>functools.cache\<close> attaches to
  \<^verbatim>\<open>get_pageviews\<close>, and the log of the URLs requested so far.
\<close>

record state =
  cache :: "string \<times> string \<times> string \<Rightarrow> series option"
  requests :: "string list"

definition api_url :: "string \<Rightarrow> string \<Rightarrow> string \<Rightarrow> string" where
  "api_url title start_date end_date =
     ''https://wikimedia.org/api/rest_v1/metrics/pageviews/per-article/en.wikipedia.org/all-access/all-agents/''
       @ title @ ''/daily/'' @ start_date @ ''/'' @ end_date"

text \<open>The body of \<^verbatim>\<open>get_pageviews\<close> (lines 18-28), without the decorator.\<close>

definition fetch_pageviews ::
  "'fig env \<Rightarrow> state \<Rightarrow> string \<Rightarrow> string \<Rightarrow> string \<Rightarrow> (exn + series) \<times> state" where
  "fetch_pageviews e st title start_date end_date =
     (let url = api_url title start_date end_date;
          st' = st\<lparr>requests := requests st @ [url]\<rparr>
      in case remote e (length (requests st)) url of
           ConnectionFailure msg \<Rightarrow> (Inl (ValueError (''Error fetching pageviews: '' @ msg)), st')
         | HTTPError msg \<Rightarrow> (Inl (ValueError (''API error: '' @ msg)), st')
         | BadBody msg \<Rightarrow> (Inl (ValueError (''Error fetching pageviews: '' @ msg)), st')
         | Items data \<Rightarrow> (Inr (map (\<lambda>(timestamp, views). (take 8 timestamp, views)) data), st'))"

text \<open>
  \<^verbatim>\<open>@cache\<close> (line 16): a hit returns the stored result without running the body; a
  miss runs it and stores what it returns; when the body raises nothing is stored.
\<close>

definition get_pageviews ::
  "'fig env \<Rightarrow> state \<Rightarrow> string \<Rightarrow> string \<Rightarrow> string \<Rightarrow> (exn + series) \<times> state" where
  "get_pageviews e st title start_date end_date =
     (case cache st (title, start_date, end_date) of
        Some r \<Rightarrow> (Inr r, st)
      | None \<Rightarrow>
          (case fetch_pageviews e st title start_date end_date of
             (Inl err, st') \<Rightarrow> (Inl err, st')
           | (Inr r, st') \<Rightarrow>
               (Inr r, st'\<lparr>cache := (cache st')((title, start_date, end_date) \<mapsto> r)\<rparr>)))"

section \<open>Merger and table\<close>

text \<open>
  \<^verbatim>\<open>dict(pairs)\<close> and a dict display: keys keep the place of their first insertion, a
  repeated key takes the later value.
\<close>

definition py_dict :: "('k \<times> 'v) list \<Rightarrow> ('k \<times> 'v) list" where
  "py_dict kvs = fold (\<lambda>(k, v). AList.update k v) kvs []"

definition py_get :: "('k \<times> 'v) list \<Rightarrow> 'k \<Rightarrow> 'v \<Rightarrow> 'v" where
  "py_get d k dflt = (case map_of d k of Some v \<Rightarrow> v | None \<Rightarrow> dflt)"

text \<open>Lines 60-61: \<^verbatim>\<open>zip(*views) if views else ([], [])\<close>.\<close>

definition unzip_views :: "series \<Rightarrow> string list \<times> int list" where
  "unzip_views views = (if views \<noteq> [] then (map fst views, map snd views) else ([], []))"

text \<open>
  Lines 63-70: the sorted union of the dates and the two aligned count columns.
  Python orders strings as lists of code points, which is the order of \<^typ>\<open>string\<close>.
\<close>

definition merge_columns :: "series \<Rightarrow> series \<Rightarrow> string list \<times> int list \<times> int list" where
  "merge_columns views1 views2 =
     (let (dates1, counts1) = unzip_views views1;
          (dates2, counts2) = unzip_views views2;
          all_dates = sorted_list_of_set (set dates1 \<union> set dates2);
          view_dict1 = py_dict views1;
          view_dict2 = py_dict views2
      in (all_dates,
          map (\<lambda>d. py_get view_dict1 d 0) all_dates,
          map (\<lambda>d. py_get view_dict2 d 0) all_dates))"

text \<open>The rows of the merged table: a date with the two counts aligned on it.\<close>

definition merged_rows :: "series \<Rightarrow> series \<Rightarrow> (string \<times> int \<times> int) list" where
  "merged_rows views1 views2 =
     (case merge_columns views1 views2 of (all_dates, col1, col2) \<Rightarrow> zip all_dates (zip col1 col2))"

text \<open>Lines 67-71: the DataFrame built from the dict of the three labelled columns.\<close>

definition make_frame :: "string \<Rightarrow> string \<Rightarrow> series \<Rightarrow> series \<Rightarrow> dataframe" where
  "make_frame title1 title2 views1 views2 =
     (case merge_columns views1 views2 of (all_dates, col1, col2) \<Rightarrow>
        py_dict [(''Date'', map DateCell all_dates),
                 (title1 @ '' Views'', map CountCell col1),
                 (title2 @ '' Views'', map CountCell col2)])"

section \<open>Request handler\<close>

text \<open>
  Lines 41-45: the dates the request goes on with. \<^verbatim>\<open>not s\<close> holds of the empty
  string.
\<close>

definition dates_used :: "'fig env \<Rightarrow> string \<Rightarrow> string \<Rightarrow> exn + string \<times> string" where
  "dates_used e start_date end_date =
     (if start_date = [] \<or> end_date = [] then default_dates (clock e)
      else Inr (start_date, end_date))"

text \<open>
  \<^verbatim>\<open>process_inputs\<close> (lines 39-98). An exception raised by a step ends the function;
  the state is the one reached when it was raised.
\<close>

definition process_inputs ::
  "'fig env \<Rightarrow> state \<Rightarrow> string \<Rightarrow> string \<Rightarrow> string \<Rightarrow> string
     \<Rightarrow> (exn + dataframe \<times> 'fig \<times> string) \<times> state" where
  "process_inputs e st url1 url2 start_date end_date =
     (case dates_used e start_date end_date of
        Inl err \<Rightarrow> (Inl err, st)
      | Inr (start_date, end_date) \<Rightarrow>
     (case validate_date start_date of
        Inl err \<Rightarrow> (Inl err, st)
      | Inr start_date \<Rightarrow>
     (case validate_date end_date of
        Inl err \<Rightarrow> (Inl err, st)
      | Inr end_date \<Rightarrow>
     (case extract_title url1 of
        Inl err \<Rightarrow> (Inl err, st)
      | Inr title1 \<Rightarrow>
     (case extract_title url2 of
        Inl err \<Rightarrow> (Inl err, st)
      | Inr title2 \<Rightarrow>
     (case get_pageviews e st title1 start_date end_date of
        (Inl err, st1) \<Rightarrow> (Inl err, st1)
      | (Inr views1, st1) \<Rightarrow>
     (case get_pageviews e st1 title2 start_date end_date of
        (Inl err, st2) \<Rightarrow> (Inl err, st2)
      | (Inr views2, st2) \<Rightarrow>
     (let df = make_frame title1 title2 views1 views2
      in case px_line e df [title1 @ '' Views'', title2 @ '' Views''] of
           Inl err \<Rightarrow> (Inl err, st2)
         | Inr fig \<Rightarrow> (Inr (df, fig, ''Analysis completed successfully!''), st2)))))))))"

text \<open>
  \<^verbatim>\<open>wrapped_process\<close> (lines 140-147): the table, the chart (\<^verbatim>\<open>None\<close> when there is
  none) and the status text.
\<close>

definition wrapped_process ::
  "'fig env \<Rightarrow> state \<Rightarrow> string \<Rightarrow> string \<Rightarrow> string \<Rightarrow> string
     \<Rightarrow> (dataframe \<times> 'fig option \<times> string) \<times> state" where
  "wrapped_process e st url1 url2 start_date end_date =
     (case process_inputs e st url1 url2 start_date end_date of
        (Inr (df, fig, msg), st') \<Rightarrow> ((df, Some fig, msg), st')
      | (Inl (ValueError msg), st') \<Rightarrow> (([], None, ''Error: '' @ msg), st')
      | (Inl (OtherException msg), st') \<Rightarrow> (([], None, ''Unexpected error: '' @ msg), st'))"

section \<open>Runs of the process\<close>

text \<open>The state when the process starts: nothing memoized, nothing requested.\<close>

definition initial_state :: state where
  "initial_state = \<lparr>cache = Map.empty, requests = []\<rparr>"

text \<open>
  The state after a sequence of further calls of \<^verbatim>\<open>get_pageviews\<close>, whatever their
  arguments and results: the only code that touches the memo table.
\<close>

fun run_calls :: "'fig env \<Rightarrow> state \<Rightarrow> (string \<times> string \<times> string) list \<Rightarrow> state" where
  "run_calls e st [] = st"
| "run_calls e st ((title, start_date, end_date) # ks) =
     run_calls e (snd (get_pageviews e st title start_date end_date)) ks"

text \<open>
  A test double for the world: the clock stands at 15 March 2024, the chart is always
  drawn, and the endpoint is the given function.
\<close>

definition test_env :: "(nat \<Rightarrow> string \<Rightarrow> outcome) \<Rightarrow> unit env" where
  "test_env r = \<lparr>clock = (2024, 3, 15), remote = r, px_line = (\<lambda>df ys. Inr ())\<rparr>"

text \<open>An endpoint whose answer carries the number of requests made before.\<close>

definition counting_remote :: "nat \<Rightarrow> string \<Rightarrow> outcome" where
  "counting_remote n url = Items [(''2024030100'', int n), (''2024030200'', 7)]"

text \<open>An endpoint that answers the first request with status 404 and serves the later ones.\<close>

definition failing_once_remote :: "nat \<Rightarrow> string \<Rightarrow> outcome" where
  "failing_once_remote n url =
     (if n = 0 then HTTPError ''404 Client Error: Not Found'' else Items [(''2024030100'', 3)])"

section \<open>Properties of the URL title extractor\<close>

lemma extract_title_without_prefix:
  "\<not> startswith url wiki_prefix \<Longrightarrow>
     extract_title url = Inl (ValueError ''URL must be from en.wikipedia.org'')"
  by (simp add: extract_title_def)

lemma py_split_no_sep:
  "\<not> sublist sep s \<Longrightarrow> py_split sep cur s = [cur @ s]"
proof (induction s arbitrary: cur)
  case Nil
  then show ?case by simp
next
  case (Cons c cs)
  have np: "\<not> prefix sep (c # cs)"
    using Cons.prems prefix_imp_sublist by blast
  have ns: "\<not> sublist sep cs"
    using Cons.prems by (auto simp: sublist_Cons_right)
  show ?case using np Cons.IH[OF ns] by simp
qed

lemma py_split_nonempty: "py_split sep cur s \<noteq> []"
  by (induction sep cur s rule: py_split.induct) auto

text \<open>The required prefix holds the separator once, at its end.\<close>

lemma py_split_prefix:
  "py_split ''wiki/'' [] (wiki_prefix @ rest) =
     ''https://en.wikipedia.org/'' # py_split ''wiki/'' [] rest"
  by (simp add: wiki_prefix_def)

text \<open>
  Where the text after the prefix does not hold \<^verbatim>\<open>wiki/\<close> again, the title is that
  text, unchanged.
\<close>

lemma extract_title_plain_rest:
  "\<not> sublist ''wiki/'' rest \<Longrightarrow> extract_title (wiki_prefix @ rest) = Inr rest"
  by (simp add: extract_title_def startswith_def py_split_prefix py_split_no_sep)

text \<open>The index 1 of line 13 is always in range once the prefix test has passed.\<close>

lemma extract_title_index_in_range:
  "startswith url wiki_prefix \<Longrightarrow> \<exists>t. extract_title url = Inr t"
proof -
  assume "startswith url wiki_prefix"
  then obtain rest where u: "url = wiki_prefix @ rest"
    by (auto simp: startswith_def prefix_def)
  obtain p ps where "py_split ''wiki/'' [] rest = p # ps"
    using py_split_nonempty by (cases "py_split ''wiki/'' [] rest") auto
  then show ?thesis
    using u by (simp add: extract_title_def startswith_def py_split_prefix)
qed

text \<open>
  Claim C4. For a URL with the required prefix the claim promises everything after the
  prefix. The code splits at every \<^verbatim>\<open>wiki/\<close> and takes the second piece, so a title that
  holds \<^verbatim>\<open>wiki/\<close> itself is cut short: for
  \<^verbatim>\<open>https://en.wikipedia.org/wiki/A/wiki/B\<close> the text after the prefix is \<^verbatim>\<open>A/wiki/B\<close>
  and the code returns \<^verbatim>\<open>A/\<close>.
\<close>

theorem extract_title_second_wiki:
  "extract_title ''https://en.wikipedia.org/wiki/A/wiki/B'' = Inr ''A/'' \<and>
   drop (length wiki_prefix) ''https://en.wikipedia.org/wiki/A/wiki/B'' = ''A/wiki/B''"
  by (simp add: extract_title_def startswith_def wiki_prefix_def)

section \<open>Properties of the date validator\<close>

lemma validate_date_result:
  "validate_date s = Inr s \<or>
   validate_date s = Inl (ValueError ''Date must be in YYYYMMDD format'')"
  by (simp add: validate_date_def split: option.splits)

lemma is_digit_cases:
  "is_digit c \<longleftrightarrow> c = CHR ''0'' \<or> c = CHR ''1'' \<or> c = CHR ''2'' \<or> c = CHR ''3'' \<or> c = CHR ''4''
     \<or> c = CHR ''5'' \<or> c = CHR ''6'' \<or> c = CHR ''7'' \<or> c = CHR ''8'' \<or> c = CHR ''9''"
  by (auto simp: is_digit_def digits_def)

lemma digit_val_values:
  "digit_val CHR ''0'' = 0" "digit_val CHR ''1'' = 1" "digit_val CHR ''2'' = 2"
  "digit_val CHR ''3'' = 3" "digit_val CHR ''4'' = 4" "digit_val CHR ''5'' = 5"
  "digit_val CHR ''6'' = 6" "digit_val CHR ''7'' = 7" "digit_val CHR ''8'' = 8"
  "digit_val CHR ''9'' = 9"
  by (simp_all add: digit_val_def is_digit_def digits_def)

lemma alternatives_Y:
  assumes "is_digit a" "is_digit b" "is_digit c" "is_digit d"
  shows "alternatives re_Y (a # b # c # d # r) = [([a, b, c, d], r)]"
  using assms by (simp add: alternatives_def re_Y_def is_digit_def List.map_filter_simps)

text \<open>
  On two digits that name a month, the two-character alternatives of the month group
  come first; likewise for the day.
\<close>

lemma alternatives_m:
  assumes "is_digit e" "is_digit f" "1 \<le> 10 * digit_val e + digit_val f"
    "10 * digit_val e + digit_val f \<le> 12"
  shows "\<exists>xs. alternatives re_m (e # f # r) = ([e, f], r) # xs"
  using assms unfolding is_digit_cases
  by (elim disjE;
      simp add: digit_val_values alternatives_def re_m_def nonzero_def List.map_filter_simps)

lemma alternatives_d:
  assumes "is_digit g" "is_digit h" "1 \<le> 10 * digit_val g + digit_val h"
    "10 * digit_val g + digit_val h \<le> 31"
  shows "\<exists>xs. alternatives re_d (g # h # r) = ([g, h], r) # xs"
  using assms unfolding is_digit_cases
  by (elim disjE;
      simp add: digit_val_values alternatives_def re_d_def nonzero_def digits_def
        List.map_filter_simps)

lemma is_digit_not_blank: "is_digit c \<Longrightarrow> c \<noteq> CHR '' ''"
  by (auto simp: is_digit_cases)

lemma py_int_two: "is_digit a \<Longrightarrow> py_int [a, b] = 10 * digit_val a + digit_val b"
  by (simp add: py_int_def is_digit_not_blank)

lemma days_in_month_le: "days_in_month y m \<le> 31"
  by (simp add: days_in_month_def)

text \<open>
  The half of claim C3 that holds: every eight-digit encoding of a calendar date is
  returned unchanged.
\<close>

lemma validate_date_accepts_YYYYMMDD:
  assumes "is_YYYYMMDD s"
  shows "validate_date s = Inr s"
proof -
  from assms have len: "length s = 8" by (simp add: is_YYYYMMDD_def)
  then obtain a b c d e f g h where s: "s = [a, b, c, d, e, f, g, h]"
    by (auto simp: eval_nat_numeral length_Suc_conv)
  from assms s have dg: "is_digit a" "is_digit b" "is_digit c" "is_digit d"
      "is_digit e" "is_digit f" "is_digit g" "is_digit h"
    by (simp_all add: is_YYYYMMDD_def)
  from assms s have v: "valid_date (py_int [a, b, c, d], py_int [e, f], py_int [g, h])"
    by (simp add: is_YYYYMMDD_def)
  have m: "1 \<le> 10 * digit_val e + digit_val f" "10 * digit_val e + digit_val f \<le> 12"
    using v dg by (simp_all add: valid_date_def py_int_two)
  have d: "1 \<le> 10 * digit_val g + digit_val h" "10 * digit_val g + digit_val h \<le> 31"
    using v dg days_in_month_le[of "py_int [a, b, c, d]" "py_int [e, f]"]
    by (simp_all add: valid_date_def py_int_two)
  obtain xs where am: "alternatives re_m [e, f, g, h] = ([e, f], [g, h]) # xs"
    using alternatives_m[OF dg(5,6) m] by blast
  obtain ys where ad: "alternatives re_d [g, h] = ([g, h], []) # ys"
    using alternatives_d[OF dg(7,8) d] by blast
  have "regex_match s = Some ([a, b, c, d], [e, f], [g, h], [])"
    by (simp add: regex_match_def s alternatives_Y[OF dg(1-4)] am ad)
  then show ?thesis
    using v by (simp add: validate_date_def strptime_Ymd_def)
qed

lemmas date_defs = validate_date_def strptime_Ymd_def regex_match_def alternatives_def
  re_Y_def re_m_def re_d_def digits_def nonzero_def List.map_filter_simps py_int_def
  digit_val_def is_digit_def valid_date_def days_in_month_def is_leap_def

text \<open>
  Claim C3. The claim has \<^verbatim>\<open>validate_date\<close> raise on every string that is not an
  eight-digit encoding of a calendar date. The parser takes a month or a day of one
  digit as well: \<^verbatim>\<open>2024111\<close> has seven characters, is read as 1 November 2024 and is
  returned as a valid date, against the message of line 36.
\<close>

theorem validate_date_accepts_seven_chars:
  "\<not> is_YYYYMMDD ''2024111'' \<and> validate_date ''2024111'' = Inr ''2024111''"
  by (simp add: is_YYYYMMDD_def date_defs)

section \<open>Properties of the merger\<close>

text \<open>The dict built from a list of pairs maps a key to its last value.\<close>

lemma map_of_fold_update:
  "map_of (fold (\<lambda>(k, v). AList.update k v) kvs acc) = map_of acc ++ map_of (rev kvs)"
proof (induction kvs arbitrary: acc)
  case Nil
  then show ?case by simp
next
  case (Cons kv kvs)
  obtain k v where kv: "kv = (k, v)" by (cases kv)
  show ?case
    by (simp add: kv Cons.IH update_conv' map_add_def fun_eq_iff split: option.splits)
qed

lemma map_of_py_dict: "map_of (py_dict kvs) = map_of (rev kvs)"
  by (simp add: py_dict_def map_of_fold_update)

lemma map_of_rev_last:
  "d \<in> fst ` set kvs \<Longrightarrow>
     map_of (rev kvs) d = Some (snd (last (filter (\<lambda>p. fst p = d) kvs)))"
proof (induction kvs rule: rev_induct)
  case Nil
  then show ?case by simp
next
  case (snoc x xs)
  show ?case
  proof (cases "fst x = d")
    case True
    then show ?thesis by (cases x) simp
  next
    case False
    with snoc.prems have "d \<in> fst ` set xs" by auto
    with snoc.IH False show ?thesis by (cases x) auto
  qed
qed

lemma map_of_rev_distinct:
  "distinct (map fst kvs) \<Longrightarrow> map_of (rev kvs) = map_of kvs"
  by (simp add: map_of_inject_set distinct_rev rev_map[symmetric])

lemma merged_rows_eq:
  "merged_rows views1 views2 =
     map (\<lambda>d. (d, py_get (py_dict views1) d 0, py_get (py_dict views2) d 0))
       (sorted_list_of_set (fst ` set views1 \<union> fst ` set views2))"
  by (simp add: merged_rows_def merge_columns_def unzip_views_def zip_map_map zip_same_conv_map
        split: prod.splits)
    (simp add: zip_map2 zip_same_conv_map)?

lemma py_get_py_dict:
  "py_get (py_dict kvs) d dflt = (case map_of (rev kvs) d of Some v \<Rightarrow> v | None \<Rightarrow> dflt)"
  by (simp add: py_get_def map_of_py_dict)

lemma merged_rows_dates:
  "map fst (merged_rows views1 views2) =
     sorted_list_of_set (fst ` set views1 \<union> fst ` set views2)"
  by (simp add: merged_rows_eq comp_def)

text \<open>
  The merger on two series with one count per date (the mappings \<open>map_of views1\<close>
  and \<open>map_of views2\<close>): as many rows as the union of the key sets has dates, the
  dates of that union in strictly ascending order, and in each row either series' count
  on the row's date, or 0 where the series lacks the date.
\<close>

lemma merged_rows_of_mappings:
  assumes "distinct (map fst views1)" and "distinct (map fst views2)"
  shows "length (merged_rows views1 views2) = card (dom (map_of views1) \<union> dom (map_of views2))
    \<and> set (map fst (merged_rows views1 views2)) = dom (map_of views1) \<union> dom (map_of views2)
    \<and> distinct (map fst (merged_rows views1 views2))
    \<and> sorted_wrt (<) (map fst (merged_rows views1 views2))
    \<and> (\<forall>d c1 c2. (d, c1, c2) \<in> set (merged_rows views1 views2) \<longrightarrow>
          c1 = (case map_of views1 d of Some v \<Rightarrow> v | None \<Rightarrow> 0) \<and>
          c2 = (case map_of views2 d of Some v \<Rightarrow> v | None \<Rightarrow> 0))
    \<and> merged_rows [] [] = []"
proof -
  let ?keys = "fst ` set views1 \<union> fst ` set views2"
  have doms: "dom (map_of views1) \<union> dom (map_of views2) = ?keys"
    by (simp add: dom_map_of_conv_image_fst)
  have len: "length (merged_rows views1 views2) = card ?keys"
    by (simp add: merged_rows_eq)
  have keys: "set (map fst (merged_rows views1 views2)) = ?keys"
    by (simp add: merged_rows_dates)
  have dist: "distinct (map fst (merged_rows views1 views2))"
    by (simp add: merged_rows_dates)
  have asc: "sorted_wrt (<) (map fst (merged_rows views1 views2))"
    by (simp add: merged_rows_dates)
  have counts: "\<forall>d c1 c2. (d, c1, c2) \<in> set (merged_rows views1 views2) \<longrightarrow>
          c1 = (case map_of views1 d of Some v \<Rightarrow> v | None \<Rightarrow> 0) \<and>
          c2 = (case map_of views2 d of Some v \<Rightarrow> v | None \<Rightarrow> 0)"
    using assms by (auto simp: merged_rows_eq py_get_py_dict map_of_rev_distinct)
  have empty: "merged_rows [] [] = []"
    by (simp add: merged_rows_eq)
  show ?thesis
    using len keys dist asc counts empty unfolding doms by blast
qed

text \<open>
  The merger on any two series, also with a date more than once: one row for each
  distinct date, and for a series that holds the date the count of its last pair with
  that date.
\<close>

lemma merged_rows_duplicate_dates:
  "distinct (map fst (merged_rows views1 views2))
   \<and> set (map fst (merged_rows views1 views2)) = fst ` set views1 \<union> fst ` set views2
   \<and> (\<forall>d c1 c2. (d, c1, c2) \<in> set (merged_rows views1 views2) \<longrightarrow>
         (d \<in> fst ` set views1 \<longrightarrow> c1 = snd (last (filter (\<lambda>p. fst p = d) views1))) \<and>
         (d \<in> fst ` set views2 \<longrightarrow> c2 = snd (last (filter (\<lambda>p. fst p = d) views2))))"
proof -
  have dist: "distinct (map fst (merged_rows views1 views2))"
    by (simp add: merged_rows_dates)
  have keys: "set (map fst (merged_rows views1 views2)) = fst ` set views1 \<union> fst ` set views2"
    by (simp add: merged_rows_dates)
  have counts: "\<forall>d c1 c2. (d, c1, c2) \<in> set (merged_rows views1 views2) \<longrightarrow>
         (d \<in> fst ` set views1 \<longrightarrow> c1 = snd (last (filter (\<lambda>p. fst p = d) views1))) \<and>
         (d \<in> fst ` set views2 \<longrightarrow> c2 = snd (last (filter (\<lambda>p. fst p = d) views2)))"
  proof (intro allI impI conjI)
    fix d c1 c2
    assume r: "(d, c1, c2) \<in> set (merged_rows views1 views2)"
      and k: "d \<in> fst ` set views1"
    from r have "c1 = py_get (py_dict views1) d 0"
      by (auto simp: merged_rows_eq)
    then show "c1 = snd (last (filter (\<lambda>p. fst p = d) views1))"
      using k by (simp add: py_get_py_dict map_of_rev_last)
  next
    fix d c1 c2
    assume r: "(d, c1, c2) \<in> set (merged_rows views1 views2)"
      and k: "d \<in> fst ` set views2"
    from r have "c2 = py_get (py_dict views2) d 0"
      by (auto simp: merged_rows_eq)
    then show "c2 = snd (last (filter (\<lambda>p. fst p = d) views2))"
      using k by (simp add: py_get_py_dict map_of_rev_last)
  qed
  show ?thesis
    using dist keys counts by blast
qed

text \<open>
  The columns of the table. The two count columns are labelled by the titles, so they
  are two columns only when the titles differ: with one title for both, the dict of
  line 67 keeps one count column, the second series'.
\<close>

lemma date_label_not_views: "''Date'' \<noteq> t @ '' Views''"
  by (auto dest: arg_cong[where f = length])

lemma make_frame_distinct_titles:
  "title1 \<noteq> title2 \<Longrightarrow>
   make_frame title1 title2 views1 views2 =
     (case merge_columns views1 views2 of (all_dates, col1, col2) \<Rightarrow>
        [(''Date'', map DateCell all_dates),
         (title1 @ '' Views'', map CountCell col1),
         (title2 @ '' Views'', map CountCell col2)])"
  using date_label_not_views[of title1] date_label_not_views[of title2]
  by (simp add: make_frame_def py_dict_def split: prod.splits)

text \<open>With two titles, the rows of the table are the merged rows.\<close>

lemma make_frame_rows:
  "title1 \<noteq> title2 \<Longrightarrow>
   make_frame title1 title2 views1 views2 =
     [(''Date'', map (\<lambda>(d, c1, c2). DateCell d) (merged_rows views1 views2)),
      (title1 @ '' Views'', map (\<lambda>(d, c1, c2). CountCell c1) (merged_rows views1 views2)),
      (title2 @ '' Views'', map (\<lambda>(d, c1, c2). CountCell c2) (merged_rows views1 views2))]"
  by (simp add: make_frame_distinct_titles merged_rows_eq)
    (simp add: merge_columns_def unzip_views_def comp_def split: prod.splits)

lemma make_frame_same_title:
  "make_frame title title views1 views2 =
     (case merge_columns views1 views2 of (all_dates, col1, col2) \<Rightarrow>
        [(''Date'', map DateCell all_dates), (title @ '' Views'', map CountCell col2)])"
  using date_label_not_views[of title]
  by (simp add: make_frame_def py_dict_def split: prod.splits)

section \<open>The test double, evaluated\<close>

lemma test_env_sel:
  "remote (test_env r) = r" "clock (test_env r) = (2024, 3, 15)"
  "px_line (test_env r) = (\<lambda>df ys. Inr ())"
  by (simp_all add: test_env_def)

lemma minus_days_numeral:
  "minus_days dt (numeral k) =
     (case prev_day dt of None \<Rightarrow> None | Some p \<Rightarrow> minus_days p (pred_numeral k))"
  by (simp add: numeral_eq_Suc)

lemma test_clock_defaults: "default_dates (2024, 3, 15) = Inr (''20240214'', ''20240315'')"
  by (simp add: default_dates_def minus_days_numeral days_in_month_def is_leap_def
        strftime_Ymd_def digit_char_def digits_def)

lemma test_dates_valid:
  "validate_date ''20240214'' = Inr ''20240214''"
  "validate_date ''20240315'' = Inr ''20240315''"
  "validate_date ''20240101'' = Inr ''20240101''"
  "validate_date ''20240131'' = Inr ''20240131''"
  "validate_date ''2024-01-01'' = Inl (ValueError ''Date must be in YYYYMMDD format'')"
  by (simp_all add: date_defs)

lemma test_titles:
  "extract_title ''https://en.wikipedia.org/wiki/A'' = Inr ''A''"
  "extract_title ''https://en.wikipedia.org/wiki/B'' = Inr ''B''"
  "extract_title ''http://example.org/A'' = Inl (ValueError ''URL must be from en.wikipedia.org'')"
  by (simp_all add: extract_title_def startswith_def wiki_prefix_def)


lemma test_frame_duplicates:
  "make_frame ''A'' ''B'' [(''20240302'', 5), (''20240301'', 7), (''20240302'', 9)]
       [(''20240302'', 5), (''20240301'', 7), (''20240302'', 9)]
     = [(''Date'', [DateCell ''20240301'', DateCell ''20240302'']),
        (''A Views'', [CountCell 7, CountCell 9]),
        (''B Views'', [CountCell 7, CountCell 9])]"
  by code_simp

lemma test_frame_same_title:
  "make_frame ''A'' ''A'' [(''20240301'', 0), (''20240302'', 7)] [(''20240301'', 0), (''20240302'', 7)]
     = [(''Date'', [DateCell ''20240301'', DateCell ''20240302'']),
        (''A Views'', [CountCell 0, CountCell 7])]"
  by code_simp

lemma test_date_seven_chars: "validate_date ''2024111'' = Inr ''2024111''"
  by (simp add: date_defs)

lemmas run_defs = process_inputs_def dates_used_def get_pageviews_def fetch_pageviews_def
  initial_state_def test_env_sel test_clock_defaults test_dates_valid test_titles

section \<open>Properties of the memoized fetcher\<close>

lemma get_pageviews_hit:
  "cache st (title, sd, ed) = Some r \<Longrightarrow> get_pageviews e st title sd ed = (Inr r, st)"
  by (simp add: get_pageviews_def)

lemma get_pageviews_stores:
  "get_pageviews e st title sd ed = (Inr r, st') \<Longrightarrow> cache st' (title, sd, ed) = Some r"
  by (auto simp: get_pageviews_def fetch_pageviews_def Let_def split: option.splits outcome.splits)

lemma get_pageviews_keeps:
  "cache st k = Some r \<Longrightarrow> cache (snd (get_pageviews e st title sd ed)) k = Some r"
  by (auto simp: get_pageviews_def fetch_pageviews_def Let_def split: option.splits outcome.splits)

lemma run_calls_keeps:
  "cache st k = Some r \<Longrightarrow> cache (run_calls e st ks) k = Some r"
proof (induction ks arbitrary: st)
  case Nil
  then show ?case by simp
next
  case (Cons c ks)
  obtain title sd ed where c: "c = (title, sd, ed)" by (cases c)
  show ?case
    unfolding c run_calls.simps
    by (rule Cons.IH) (rule get_pageviews_keeps[OF Cons.prems])
qed

text \<open>
  Claim C6. Once a call of \<^verbatim>\<open>get_pageviews\<close> has returned a series, a call with the same
  (title, start_date, end_date) at any later time of the process (after any further
  calls) returns that series and leaves the state as it is: the request log gets no new
  entry, so no outbound request is made.
\<close>

theorem get_pageviews_memoized:
  assumes "get_pageviews e st title sd ed = (Inr r, st1)"
  shows "get_pageviews e (run_calls e st1 ks) title sd ed = (Inr r, run_calls e st1 ks)"
  by (rule get_pageviews_hit) (rule run_calls_keeps[OF get_pageviews_stores[OF assms]])

text \<open>
  Witness for C6: the endpoint would answer a second request with another count, and
  the second call still returns the first answer with one request in the log.
\<close>

theorem get_pageviews_memoized_witness:
  "fst (get_pageviews (test_env counting_remote) initial_state ''A'' ''20240301'' ''20240302'')
     = Inr [(''20240301'', 0), (''20240302'', 7)]
   \<and> fst (get_pageviews (test_env counting_remote)
           (snd (get_pageviews (test_env counting_remote) initial_state ''A'' ''20240301'' ''20240302''))
           ''A'' ''20240301'' ''20240302'')
     = Inr [(''20240301'', 0), (''20240302'', 7)]
   \<and> requests (snd (get_pageviews (test_env counting_remote)
           (snd (get_pageviews (test_env counting_remote) initial_state ''A'' ''20240301'' ''20240302''))
           ''A'' ''20240301'' ''20240302''))
     = [api_url ''A'' ''20240301'' ''20240302'']"
proof -
  let ?st1 = "snd (get_pageviews (test_env counting_remote) initial_state ''A'' ''20240301'' ''20240302'')"
  have r: "requests ?st1 = [api_url ''A'' ''20240301'' ''20240302'']"
    by (simp add: get_pageviews_def fetch_pageviews_def test_env_sel counting_remote_def
        initial_state_def)
  have f: "fst (get_pageviews (test_env counting_remote) initial_state ''A'' ''20240301'' ''20240302'')
     = Inr [(''20240301'', 0), (''20240302'', 7)]"
    by (simp add: get_pageviews_def fetch_pageviews_def test_env_sel counting_remote_def
        initial_state_def)
  have h: "get_pageviews (test_env counting_remote) initial_state ''A'' ''20240301'' ''20240302''
     = (Inr [(''20240301'', 0), (''20240302'', 7)], ?st1)"
    by (rule prod_eqI) (simp_all only: fst_conv snd_conv f)
  have s: "get_pageviews (test_env counting_remote) ?st1 ''A'' ''20240301'' ''20240302''
     = (Inr [(''20240301'', 0), (''20240302'', 7)], ?st1)"
    using get_pageviews_memoized[OF h, of "[]"] by (simp only: run_calls.simps)
  have a: "fst (get_pageviews (test_env counting_remote) ?st1 ''A'' ''20240301'' ''20240302'')
     = Inr [(''20240301'', 0), (''20240302'', 7)]"
    by (simp only: s fst_conv)
  have b: "requests (snd (get_pageviews (test_env counting_remote) ?st1 ''A'' ''20240301'' ''20240302''))
     = [api_url ''A'' ''20240301'' ''20240302'']"
    by (simp only: s snd_conv r)
  show ?thesis
    using f a b by blast
qed

text \<open>
  Claim C9. When \<^verbatim>\<open>get_pageviews\<close> raises, the memo table is as before and has no entry
  for the tuple; one request was made, and the next call with the same tuple makes a
  request again.
\<close>

theorem failed_fetch_not_cached:
  assumes "get_pageviews e st title sd ed = (Inl err, st')"
  shows "cache st' = cache st
    \<and> cache st' (title, sd, ed) = None
    \<and> requests st' = requests st @ [api_url title sd ed]
    \<and> requests (snd (get_pageviews e st' title sd ed)) = requests st' @ [api_url title sd ed]"
proof -
  from assms have miss: "cache st (title, sd, ed) = None"
    by (auto simp: get_pageviews_def split: option.splits)
  from assms have same: "cache st' = cache st"
    and log: "requests st' = requests st @ [api_url title sd ed]"
    by (auto simp: get_pageviews_def fetch_pageviews_def Let_def split: option.splits outcome.splits)
  have again: "requests (snd (get_pageviews e st' title sd ed)) = requests st' @ [api_url title sd ed]"
    using miss same
    by (auto simp: get_pageviews_def fetch_pageviews_def Let_def split: option.splits outcome.splits)
  show ?thesis using miss same log again by simp
qed

text \<open>
  Witness for C9: the first request fails with status 404, the same call made again
  asks the endpoint a second time and gets the series.
\<close>

theorem failed_fetch_not_cached_witness:
  "fst (get_pageviews (test_env failing_once_remote) initial_state ''A'' ''20240301'' ''20240302'')
     = Inl (ValueError ''API error: 404 Client Error: Not Found'')
   \<and> requests (snd (get_pageviews (test_env failing_once_remote)
        (snd (get_pageviews (test_env failing_once_remote) initial_state ''A'' ''20240301'' ''20240302''))
        ''A'' ''20240301'' ''20240302''))
     = [api_url ''A'' ''20240301'' ''20240302'', api_url ''A'' ''20240301'' ''20240302'']
   \<and> fst (get_pageviews (test_env failing_once_remote)
        (snd (get_pageviews (test_env failing_once_remote) initial_state ''A'' ''20240301'' ''20240302''))
        ''A'' ''20240301'' ''20240302'')
     = Inr [(''20240301'', 3)]"
proof -
  let ?st1 = "snd (get_pageviews (test_env failing_once_remote) initial_state ''A'' ''20240301'' ''20240302'')"
  have f: "fst (get_pageviews (test_env failing_once_remote) initial_state ''A'' ''20240301'' ''20240302'')
     = Inl (ValueError ''API error: 404 Client Error: Not Found'')"
    by (simp add: get_pageviews_def fetch_pageviews_def test_env_sel failing_once_remote_def
        initial_state_def)
  have h: "get_pageviews (test_env failing_once_remote) initial_state ''A'' ''20240301'' ''20240302''
     = (Inl (ValueError ''API error: 404 Client Error: Not Found''), ?st1)"
    by (rule prod_eqI) (simp_all only: fst_conv snd_conv f)
  note t = failed_fetch_not_cached[OF h]
  from t have c: "cache ?st1 = cache initial_state"
    and r: "requests ?st1 = requests initial_state @ [api_url ''A'' ''20240301'' ''20240302'']"
    and n: "requests (snd (get_pageviews (test_env failing_once_remote) ?st1 ''A'' ''20240301'' ''20240302''))
      = requests ?st1 @ [api_url ''A'' ''20240301'' ''20240302'']"
    by blast+
  have b: "requests (snd (get_pageviews (test_env failing_once_remote) ?st1 ''A'' ''20240301'' ''20240302''))
     = [api_url ''A'' ''20240301'' ''20240302'', api_url ''A'' ''20240301'' ''20240302'']"
    by (simp only: n r) (simp add: initial_state_def)
  have a: "fst (get_pageviews (test_env failing_once_remote) ?st1 ''A'' ''20240301'' ''20240302'')
     = Inr [(''20240301'', 3)]"
    by (simp add: get_pageviews_def fetch_pageviews_def test_env_sel failing_once_remote_def
        initial_state_def api_url_def)
  show ?thesis
    using f a b by blast
qed

section \<open>Properties of the request handler\<close>

lemma get_pageviews_requests:
  "requests (snd (get_pageviews e st title sd ed)) = requests st \<or>
   requests (snd (get_pageviews e st title sd ed)) = requests st @ [api_url title sd ed]"
  by (auto simp: get_pageviews_def fetch_pageviews_def Let_def split: option.splits outcome.splits)

lemma process_inputs_date_error:
  assumes "dates_used e start_date end_date = Inr (s, d)"
    and "validate_date s \<noteq> Inr s \<or> validate_date d \<noteq> Inr d"
  shows "process_inputs e st url1 url2 start_date end_date =
           (Inl (ValueError ''Date must be in YYYYMMDD format''), st)"
  using assms validate_date_result[of s] validate_date_result[of d]
  by (auto simp: process_inputs_def)

lemma process_inputs_url_error:
  assumes "dates_used e start_date end_date = Inr (s, d)"
    and "validate_date s = Inr s" and "validate_date d = Inr d"
    and "\<not> startswith url1 wiki_prefix \<or> \<not> startswith url2 wiki_prefix"
  shows "process_inputs e st url1 url2 start_date end_date =
           (Inl (ValueError ''URL must be from en.wikipedia.org''), st)"
proof (cases "startswith url1 wiki_prefix")
  case False
  then show ?thesis
    using assms(1-3) by (simp add: process_inputs_def extract_title_without_prefix)
next
  case True
  then obtain t1 where "extract_title url1 = Inr t1"
    using extract_title_index_in_range by blast
  moreover from True assms(4) have "extract_title url2 = Inl (ValueError ''URL must be from en.wikipedia.org'')"
    by (simp add: extract_title_without_prefix)
  ultimately show ?thesis
    using assms(1-3) by (simp add: process_inputs_def)
qed






section \<open>Fetch errors\<close>





section \<open>Order of validation and extraction\<close>

text \<open>
  Claim C8, as stated: with a URL that lacks the prefix and a malformed date, the URL
  error is reported. The dates are validated on lines 48-49, before the titles are
  extracted on lines 52-53: for the malformed date \<^verbatim>\<open>2024-01-01\<close> the date error is
  the one reported.
\<close>

theorem date_error_reported_first:
  "extract_title ''http://example.org/A'' = Inl (ValueError ''URL must be from en.wikipedia.org'')
   \<and> validate_date ''2024-01-01'' = Inl (ValueError ''Date must be in YYYYMMDD format'')
   \<and> fst (wrapped_process (test_env counting_remote) initial_state
            ''http://example.org/A'' ''https://en.wikipedia.org/wiki/B'' ''2024-01-01'' ''20240131'')
     = ([], None, ''Error: Date must be in YYYYMMDD format'')"
  by (simp add: wrapped_process_def run_defs)

text \<open>
  Claim C8, amended. The validator runs before the extractor. When both date inputs are
  given and \<^verbatim>\<open>validate_date\<close> rejects at least one of them, the handler reports the
  date error, whatever the URLs are. When the dates in use pass \<^verbatim>\<open>validate_date\<close> and
  a URL lacks the prefix, the handler reports the URL error; this is also the case for a
  date that \<^verbatim>\<open>validate_date\<close> lets through although it is not an eight-digit date,
  such as \<^verbatim>\<open>2024111\<close>.
\<close>

theorem validation_before_extraction:
  "(start_date \<noteq> [] \<and> end_date \<noteq> [] \<and>
      (validate_date start_date \<noteq> Inr start_date \<or> validate_date end_date \<noteq> Inr end_date) \<longrightarrow>
      wrapped_process e st url1 url2 start_date end_date =
        (([], None, ''Error: Date must be in YYYYMMDD format''), st))
   \<and> (\<forall>s d. dates_used e start_date end_date = Inr (s, d) \<and>
          validate_date s = Inr s \<and> validate_date d = Inr d \<and>
          (\<not> startswith url1 wiki_prefix \<or> \<not> startswith url2 wiki_prefix) \<longrightarrow>
          wrapped_process e st url1 url2 start_date end_date =
            (([], None, ''Error: URL must be from en.wikipedia.org''), st))"
proof -
  have a: "start_date \<noteq> [] \<and> end_date \<noteq> [] \<and>
      (validate_date start_date \<noteq> Inr start_date \<or> validate_date end_date \<noteq> Inr end_date) \<longrightarrow>
      wrapped_process e st url1 url2 start_date end_date =
        (([], None, ''Error: Date must be in YYYYMMDD format''), st)"
  proof
    assume h: "start_date \<noteq> [] \<and> end_date \<noteq> [] \<and>
      (validate_date start_date \<noteq> Inr start_date \<or> validate_date end_date \<noteq> Inr end_date)"
    then have "dates_used e start_date end_date = Inr (start_date, end_date)"
      by (simp add: dates_used_def)
    with h have "process_inputs e st url1 url2 start_date end_date =
        (Inl (ValueError ''Date must be in YYYYMMDD format''), st)"
      using process_inputs_date_error by blast
    then show "wrapped_process e st url1 url2 start_date end_date =
        (([], None, ''Error: Date must be in YYYYMMDD format''), st)"
      by (simp add: wrapped_process_def)
  qed
  have b: "\<forall>s d. dates_used e start_date end_date = Inr (s, d) \<and>
          validate_date s = Inr s \<and> validate_date d = Inr d \<and>
          (\<not> startswith url1 wiki_prefix \<or> \<not> startswith url2 wiki_prefix) \<longrightarrow>
          wrapped_process e st url1 url2 start_date end_date =
            (([], None, ''Error: URL must be from en.wikipedia.org''), st)"
  proof (intro allI impI)
    fix s d
    assume "dates_used e start_date end_date = Inr (s, d) \<and>
          validate_date s = Inr s \<and> validate_date d = Inr d \<and>
          (\<not> startswith url1 wiki_prefix \<or> \<not> startswith url2 wiki_prefix)"
    then have "process_inputs e st url1 url2 start_date end_date =
        (Inl (ValueError ''URL must be from en.wikipedia.org''), st)"
      using process_inputs_url_error by blast
    then show "wrapped_process e st url1 url2 start_date end_date =
            (([], None, ''Error: URL must be from en.wikipedia.org''), st)"
      by (simp add: wrapped_process_def)
  qed
  show ?thesis using a b by blast
qed

text \<open>
  Witness for C8: a URL of another site, with a start date the validator rejects, with
  two valid dates, and with the seven-character start date the validator lets through.
\<close>

theorem validation_before_extraction_witness:
  "''2024-01-01'' \<noteq> [] \<and> ''20240131'' \<noteq> []
   \<and> validate_date ''2024-01-01'' \<noteq> Inr ''2024-01-01''
   \<and> \<not> startswith ''http://example.org/A'' wiki_prefix
   \<and> fst (wrapped_process (test_env counting_remote) initial_state
            ''http://example.org/A'' ''https://en.wikipedia.org/wiki/B'' ''2024-01-01'' ''20240131'')
     = ([], None, ''Error: Date must be in YYYYMMDD format'')
   \<and> fst (wrapped_process (test_env counting_remote) initial_state
            ''http://example.org/A'' ''https://en.wikipedia.org/wiki/B'' ''20240101'' ''20240131'')
     = ([], None, ''Error: URL must be from en.wikipedia.org'')
   \<and> \<not> is_YYYYMMDD ''2024111''
   \<and> validate_date ''2024111'' = Inr ''2024111''
   \<and> fst (wrapped_process (test_env counting_remote) initial_state
            ''http://example.org/A'' ''https://en.wikipedia.org/wiki/B'' ''2024111'' ''20240131'')
     = ([], None, ''Error: URL must be from en.wikipedia.org'')"
proof -
  let ?E = "test_env counting_remote"
  let ?A = "''http://example.org/A''"
  let ?B = "''https://en.wikipedia.org/wiki/B''"
  have n: "''2024-01-01'' \<noteq> [] \<and> ''20240131'' \<noteq> []" by simp
  have v: "validate_date ''2024-01-01'' \<noteq> Inr ''2024-01-01''"
    by (simp add: test_dates_valid)
  have u: "\<not> startswith ?A wiki_prefix"
    by (simp add: startswith_def wiki_prefix_def)
  have dates: "dates_used ?E ''20240101'' ''20240131'' = Inr (''20240101'', ''20240131'')"
    by (simp add: dates_used_def)
  have a: "wrapped_process ?E initial_state ?A ?B ''2024-01-01'' ''20240131''
      = (([], None, ''Error: Date must be in YYYYMMDD format''), initial_state)"
    using validation_before_extraction[of "''2024-01-01''" "''20240131''" ?E initial_state ?A ?B]
      n v by blast
  have b: "wrapped_process ?E initial_state ?A ?B ''20240101'' ''20240131''
      = (([], None, ''Error: URL must be from en.wikipedia.org''), initial_state)"
    using validation_before_extraction[of "''20240101''" "''20240131''" ?E initial_state ?A ?B]
      dates test_dates_valid(3,4) u by blast
  have m: "\<not> is_YYYYMMDD ''2024111''"
    by (simp add: is_YYYYMMDD_def)
  have dates7: "dates_used ?E ''2024111'' ''20240131'' = Inr (''2024111'', ''20240131'')"
    by (simp add: dates_used_def)
  have c: "wrapped_process ?E initial_state ?A ?B ''2024111'' ''20240131''
      = (([], None, ''Error: URL must be from en.wikipedia.org''), initial_state)"
    using validation_before_extraction[of "''2024111''" "''20240131''" ?E initial_state ?A ?B]
      dates7 test_date_seven_chars test_dates_valid(4) u by blast
  show ?thesis
    using n v u m test_date_seven_chars by (simp only: a b c fst_conv) simp
qed

section \<open>Default dates\<close>

lemma validate_date_Inr: "validate_date s = Inr x \<Longrightarrow> x = s"
  by (auto simp: validate_date_def split: option.splits)

lemma digit_char_is_digit: "is_digit (digit_char n)"
proof -
  have "n mod 10 < length digits" by (simp add: digits_def)
  then show ?thesis
    unfolding is_digit_def digit_char_def by (rule nth_mem)
qed

lemma strftime_Ymd_format:
  "length (strftime_Ymd dt) = 8 \<and> list_all is_digit (strftime_Ymd dt)"
  by (cases dt) (simp add: strftime_Ymd_def digit_char_is_digit)

lemma default_dates_Inr:
  "default_dates now = Inr (ds, de) \<Longrightarrow>
     de = strftime_Ymd now \<and> (\<exists>d0. minus_days now 30 = Some d0 \<and> ds = strftime_Ymd d0)"
  by (auto simp: default_dates_def split: option.splits)

lemma process_inputs_either_empty:
  "start_date = [] \<or> end_date = [] \<Longrightarrow>
     process_inputs e st url1 url2 start_date end_date = process_inputs e st url1 url2 [] []"
  unfolding process_inputs_def dates_used_def by auto

lemma process_inputs_state:
  assumes "dates_used e start_date end_date = Inr (s, d)"
  shows "snd (process_inputs e st url1 url2 start_date end_date) = st \<or>
    (\<exists>t1. snd (process_inputs e st url1 url2 start_date end_date)
             = snd (get_pageviews e st t1 s d)) \<or>
    (\<exists>t1 t2. snd (process_inputs e st url1 url2 start_date end_date)
             = snd (get_pageviews e (snd (get_pageviews e st t1 s d)) t2 s d))"
proof (cases "validate_date s")
  case (Inl err)
  then show ?thesis using assms by (simp add: process_inputs_def)
next
  case vs: (Inr s')
  then have s': "s' = s" by (rule validate_date_Inr)
  show ?thesis
  proof (cases "validate_date d")
    case (Inl err)
    then show ?thesis using assms vs by (simp add: process_inputs_def)
  next
    case vd: (Inr d')
    then have d': "d' = d" by (rule validate_date_Inr)
    show ?thesis
    proof (cases "extract_title url1")
      case (Inl err)
      then show ?thesis using assms vs vd by (simp add: process_inputs_def)
    next
      case t1: (Inr title1)
      show ?thesis
      proof (cases "extract_title url2")
        case (Inl err)
        then show ?thesis using assms vs vd t1 by (simp add: process_inputs_def)
      next
        case t2: (Inr title2)
        obtain r1 st1 where g1: "get_pageviews e st title1 s d = (r1, st1)"
          by (cases "get_pageviews e st title1 s d")
        obtain r2 st2 where g2: "get_pageviews e st1 title2 s d = (r2, st2)"
          by (cases "get_pageviews e st1 title2 s d")
        have "snd (process_inputs e st url1 url2 start_date end_date) = st1 \<or>
              snd (process_inputs e st url1 url2 start_date end_date) = st2"
        proof (cases r1)
          case (Inl err)
          then show ?thesis
            unfolding process_inputs_def assms
            by (simp add: vs[unfolded s'] vd[unfolded d'] t1 t2 g1)
        next
          case r1: (Inr views1)
          show ?thesis
          proof (cases r2)
            case (Inl err)
            then show ?thesis
              unfolding process_inputs_def assms
              by (simp add: vs[unfolded s'] vd[unfolded d'] t1 t2 g1 r1 g2)
          next
            case (Inr views2)
            then show ?thesis
              unfolding process_inputs_def assms
              by (simp add: vs[unfolded s'] vd[unfolded d'] t1 t2 g1 r1 g2 Let_def split: sum.splits)
          qed
        qed
        then show ?thesis
        proof
          assume "snd (process_inputs e st url1 url2 start_date end_date) = st1"
          then have "snd (process_inputs e st url1 url2 start_date end_date)
              = snd (get_pageviews e st title1 s d)"
            by (simp add: g1)
          then show ?thesis by (intro disjI2 disjI1 exI)
        next
          assume "snd (process_inputs e st url1 url2 start_date end_date) = st2"
          then have "snd (process_inputs e st url1 url2 start_date end_date)
              = snd (get_pageviews e (snd (get_pageviews e st title1 s d)) title2 s d)"
            by (simp add: g1 g2)
          then show ?thesis by (intro disjI2 exI)
        qed
      qed
    qed
  qed
qed

lemma process_inputs_requests:
  assumes "dates_used e start_date end_date = Inr (s, d)"
  shows "\<exists>new. requests (snd (process_inputs e st url1 url2 start_date end_date)) = requests st @ new
           \<and> (\<forall>u \<in> set new. \<exists>t. u = api_url t s d)"
proof -
  let ?P = "\<lambda>st'. \<exists>new. requests st' = requests st @ new \<and> (\<forall>u \<in> set new. \<exists>t. u = api_url t s d)"
  have p0: "?P st" by simp
  have step: "?P (snd (get_pageviews e st' t s d))" if "?P st'" for st' t
  proof -
    from that obtain new where n: "requests st' = requests st @ new"
      "\<forall>u \<in> set new. \<exists>t. u = api_url t s d" by blast
    from get_pageviews_requests[of e st' t s d] show ?thesis
    proof
      assume "requests (snd (get_pageviews e st' t s d)) = requests st'"
      with n show ?thesis by auto
    next
      assume "requests (snd (get_pageviews e st' t s d)) = requests st' @ [api_url t s d]"
      with n have "requests (snd (get_pageviews e st' t s d)) = requests st @ (new @ [api_url t s d])"
        "\<forall>u \<in> set (new @ [api_url t s d]). \<exists>t. u = api_url t s d"
        by auto
      then show ?thesis by blast
    qed
  qed
  from process_inputs_state[OF assms, of st url1 url2] show ?thesis
    using p0 step[OF p0] step[OF step[OF p0]] by (elim disjE exE) simp_all
qed

text \<open>
  Claim C2, as stated: the defaults are used exactly when both inputs are empty, and a
  date that was given is never dropped for a default. Line 41 tests
  \<^verbatim>\<open>not start_date or not end_date\<close>: with a start date given and the end date left
  empty, both requests go out for the default range of the clock.
\<close>

theorem one_empty_date_discards_the_other:
  "''20240101'' \<noteq> []
   \<and> requests (snd (process_inputs (test_env counting_remote) initial_state
         ''https://en.wikipedia.org/wiki/A'' ''https://en.wikipedia.org/wiki/B'' ''20240101'' []))
     = [api_url ''A'' ''20240214'' ''20240315'', api_url ''B'' ''20240214'' ''20240315'']"
  by (simp add: run_defs counting_remote_def)

text \<open>
  Claim C2, amended. The defaults are used whenever at least one of the two date inputs
  is empty, and then for both dates: the request runs as if both inputs were empty, so a
  date given next to an empty one is dropped. When both inputs are given they are the
  dates in use. The dates in use are validated (a malformed one ends the request with
  the date error) and every request made is for exactly these dates. The defaults are
  the clock's date for the end and the date thirty days earlier for the start, each
  written as eight digits.
\<close>

theorem defaults_when_either_input_empty:
  "(start_date = [] \<or> end_date = [] \<longrightarrow>
      process_inputs e st url1 url2 start_date end_date = process_inputs e st url1 url2 [] [] \<and>
      dates_used e start_date end_date = default_dates (clock e))
   \<and> (start_date \<noteq> [] \<and> end_date \<noteq> [] \<longrightarrow>
      dates_used e start_date end_date = Inr (start_date, end_date))
   \<and> (\<forall>s d. dates_used e start_date end_date = Inr (s, d) \<longrightarrow>
        (validate_date s \<noteq> Inr s \<or> validate_date d \<noteq> Inr d \<longrightarrow>
           process_inputs e st url1 url2 start_date end_date =
             (Inl (ValueError ''Date must be in YYYYMMDD format''), st)) \<and>
        (\<exists>new. requests (snd (process_inputs e st url1 url2 start_date end_date))
                  = requests st @ new \<and>
               (\<forall>u \<in> set new. \<exists>t. u = api_url t s d)))
   \<and> (\<forall>ds de. default_dates (clock e) = Inr (ds, de) \<longrightarrow>
        de = strftime_Ymd (clock e) \<and>
        (\<exists>d0. minus_days (clock e) 30 = Some d0 \<and> ds = strftime_Ymd d0) \<and>
        length ds = 8 \<and> list_all is_digit ds \<and> length de = 8 \<and> list_all is_digit de)"
proof -
  have a: "start_date = [] \<or> end_date = [] \<longrightarrow>
      process_inputs e st url1 url2 start_date end_date = process_inputs e st url1 url2 [] [] \<and>
      dates_used e start_date end_date = default_dates (clock e)"
    using process_inputs_either_empty[of start_date end_date e st url1 url2]
    by (auto simp: dates_used_def)
  have b: "start_date \<noteq> [] \<and> end_date \<noteq> [] \<longrightarrow>
      dates_used e start_date end_date = Inr (start_date, end_date)"
    by (simp add: dates_used_def)
  have c: "\<forall>s d. dates_used e start_date end_date = Inr (s, d) \<longrightarrow>
        (validate_date s \<noteq> Inr s \<or> validate_date d \<noteq> Inr d \<longrightarrow>
           process_inputs e st url1 url2 start_date end_date =
             (Inl (ValueError ''Date must be in YYYYMMDD format''), st)) \<and>
        (\<exists>new. requests (snd (process_inputs e st url1 url2 start_date end_date))
                  = requests st @ new \<and>
               (\<forall>u \<in> set new. \<exists>t. u = api_url t s d))"
    using process_inputs_date_error[of e start_date end_date _ _ st url1 url2]
      process_inputs_requests[of e start_date end_date _ _ st url1 url2]
    by blast
  have d: "\<forall>ds de. default_dates (clock e) = Inr (ds, de) \<longrightarrow>
        de = strftime_Ymd (clock e) \<and>
        (\<exists>d0. minus_days (clock e) 30 = Some d0 \<and> ds = strftime_Ymd d0) \<and>
        length ds = 8 \<and> list_all is_digit ds \<and> length de = 8 \<and> list_all is_digit de"
  proof (intro allI impI)
    fix ds de
    assume h: "default_dates (clock e) = Inr (ds, de)"
    from default_dates_Inr[OF h] obtain d0 where
      e: "de = strftime_Ymd (clock e)" "minus_days (clock e) 30 = Some d0" "ds = strftime_Ymd d0"
      by blast
    show "de = strftime_Ymd (clock e) \<and>
        (\<exists>d0. minus_days (clock e) 30 = Some d0 \<and> ds = strftime_Ymd d0) \<and>
        length ds = 8 \<and> list_all is_digit ds \<and> length de = 8 \<and> list_all is_digit de"
      using e strftime_Ymd_format[of d0] strftime_Ymd_format[of "clock e"] by blast
  qed
  show ?thesis
    using a b c d by blast
qed

text \<open>
  Witness for C2: a start date given with an empty end date, the same start date given
  with an end date, and a malformed start date given with an end date.
\<close>

theorem defaults_when_either_input_empty_witness:
  "process_inputs (test_env counting_remote) initial_state
       ''https://en.wikipedia.org/wiki/A'' ''https://en.wikipedia.org/wiki/B'' ''20240101'' []
     = process_inputs (test_env counting_remote) initial_state
       ''https://en.wikipedia.org/wiki/A'' ''https://en.wikipedia.org/wiki/B'' [] []
   \<and> dates_used (test_env counting_remote) ''20240101'' [] = Inr (''20240214'', ''20240315'')
   \<and> dates_used (test_env counting_remote) ''20240101'' ''20240131''
     = Inr (''20240101'', ''20240131'')
   \<and> requests (snd (process_inputs (test_env counting_remote) initial_state
         ''https://en.wikipedia.org/wiki/A'' ''https://en.wikipedia.org/wiki/B''
         ''20240101'' ''20240131''))
     = [api_url ''A'' ''20240101'' ''20240131'', api_url ''B'' ''20240101'' ''20240131'']
   \<and> process_inputs (test_env counting_remote) initial_state
         ''https://en.wikipedia.org/wiki/A'' ''https://en.wikipedia.org/wiki/B''
         ''2024-01-01'' ''20240131''
     = (Inl (ValueError ''Date must be in YYYYMMDD format''), initial_state)
   \<and> ''20240315'' = strftime_Ymd (2024, 3, 15)
   \<and> length ''20240214'' = 8"
proof -
  let ?E = "test_env counting_remote"
  let ?A = "''https://en.wikipedia.org/wiki/A''"
  let ?B = "''https://en.wikipedia.org/wiki/B''"
  note t1 = defaults_when_either_input_empty[of "''20240101''" "[]" ?E initial_state ?A ?B]
  note t2 = defaults_when_either_input_empty[of "''20240101''" "''20240131''" ?E initial_state ?A ?B]
  note t3 = defaults_when_either_input_empty[of "''2024-01-01''" "''20240131''" ?E initial_state ?A ?B]
  have dd: "default_dates (clock ?E) = Inr (''20240214'', ''20240315'')"
    by (simp add: test_env_sel test_clock_defaults)
  from t1 have a: "process_inputs ?E initial_state ?A ?B ''20240101'' []
      = process_inputs ?E initial_state ?A ?B [] []"
    by blast
  from t1 dd have b: "dates_used ?E ''20240101'' [] = Inr (''20240214'', ''20240315'')"
    by simp
  have n: "''20240101'' \<noteq> [] \<and> ''20240131'' \<noteq> []" by simp
  from t2 n have c: "dates_used ?E ''20240101'' ''20240131'' = Inr (''20240101'', ''20240131'')"
    by blast
  have r: "requests (snd (process_inputs ?E initial_state ?A ?B ''20240101'' ''20240131''))
     = [api_url ''A'' ''20240101'' ''20240131'', api_url ''B'' ''20240101'' ''20240131'']"
    by (simp add: run_defs counting_remote_def)
  have n3: "''2024-01-01'' \<noteq> [] \<and> ''20240131'' \<noteq> []" by simp
  from t3 n3 have c3: "dates_used ?E ''2024-01-01'' ''20240131'' = Inr (''2024-01-01'', ''20240131'')"
    by blast
  have v3: "validate_date ''2024-01-01'' \<noteq> Inr ''2024-01-01''"
    by (simp add: test_dates_valid)
  from t3 c3 v3 have e: "process_inputs ?E initial_state ?A ?B ''2024-01-01'' ''20240131''
     = (Inl (ValueError ''Date must be in YYYYMMDD format''), initial_state)"
    by blast
  from t1 dd have f: "''20240315'' = strftime_Ymd (clock ?E) \<and> length ''20240214'' = 8"
    by blast
  then have f': "''20240315'' = strftime_Ymd (2024, 3, 15) \<and> length ''20240214'' = 8"
    by (simp only: test_env_sel)
  show ?thesis
    using a b c r e f' by blast
qed

section \<open>The table of the handler\<close>

text \<open>
  The table that \<^verbatim>\<open>process_inputs\<close> returns is the DataFrame of lines 67-71
  (\<open>make_frame\<close>), built from the two series the fetcher returned. Its columns are looked
  up by their labels.
\<close>

lemma py_get_last:
  "py_get (py_dict kvs) d dflt =
     (if d \<in> fst ` set kvs then snd (last (filter (\<lambda>p. fst p = d) kvs)) else dflt)"
proof (cases "d \<in> fst ` set kvs")
  case True
  then show ?thesis by (simp add: py_get_py_dict map_of_rev_last)
next
  case False
  then have "map_of (rev kvs) d = None"
    by (simp add: map_of_eq_None_iff)
  with False show ?thesis by (simp add: py_get_py_dict)
qed

lemma merge_columns_eq:
  "merge_columns views1 views2 =
     (sorted_list_of_set (fst ` set views1 \<union> fst ` set views2),
      map (\<lambda>d. py_get (py_dict views1) d 0)
        (sorted_list_of_set (fst ` set views1 \<union> fst ` set views2)),
      map (\<lambda>d. py_get (py_dict views2) d 0)
        (sorted_list_of_set (fst ` set views1 \<union> fst ` set views2)))"
  by (simp add: merge_columns_def unzip_views_def)

lemma map_of_make_frame:
  "map_of (make_frame title1 title2 views1 views2) =
     (case merge_columns views1 views2 of (all_dates, col1, col2) \<Rightarrow>
        map_of [(title2 @ '' Views'', map CountCell col2),
                (title1 @ '' Views'', map CountCell col1),
                (''Date'', map DateCell all_dates)])"
  by (simp add: make_frame_def map_of_py_dict split: prod.splits)

lemma get_pageviews_again:
  assumes "get_pageviews e st title sd ed = (Inr views1, st1)"
    and "get_pageviews e st1 title sd ed = (Inr views2, st2)"
  shows "views2 = views1"
  using get_pageviews_hit[OF get_pageviews_stores[OF assms(1)], of e] assms(2) by simp

lemma make_frame_table:
  assumes "title1 = title2 \<longrightarrow> views1 = views2"
  shows "map_of (make_frame title1 title2 views1 views2) ''Date''
      = Some (map DateCell (sorted_list_of_set (fst ` set views1 \<union> fst ` set views2)))"
    and "map_of (make_frame title1 title2 views1 views2) (title1 @ '' Views'')
      = Some (map (\<lambda>d. CountCell (if d \<in> fst ` set views1
                                  then snd (last (filter (\<lambda>p. fst p = d) views1)) else 0))
               (sorted_list_of_set (fst ` set views1 \<union> fst ` set views2)))"
    and "map_of (make_frame title1 title2 views1 views2) (title2 @ '' Views'')
      = Some (map (\<lambda>d. CountCell (if d \<in> fst ` set views2
                                  then snd (last (filter (\<lambda>p. fst p = d) views2)) else 0))
               (sorted_list_of_set (fst ` set views1 \<union> fst ` set views2)))"
    and "\<forall>(label, col) \<in> set (make_frame title1 title2 views1 views2).
           length col = length (sorted_list_of_set (fst ` set views1 \<union> fst ` set views2))"
proof -
  show "map_of (make_frame title1 title2 views1 views2) ''Date''
      = Some (map DateCell (sorted_list_of_set (fst ` set views1 \<union> fst ` set views2)))"
    using date_label_not_views[of title1] date_label_not_views[of title2]
    by (simp add: map_of_make_frame merge_columns_eq)
  show "map_of (make_frame title1 title2 views1 views2) (title2 @ '' Views'')
      = Some (map (\<lambda>d. CountCell (if d \<in> fst ` set views2
                                  then snd (last (filter (\<lambda>p. fst p = d) views2)) else 0))
               (sorted_list_of_set (fst ` set views1 \<union> fst ` set views2)))"
    by (simp add: map_of_make_frame merge_columns_eq py_get_last comp_def)
  show "map_of (make_frame title1 title2 views1 views2) (title1 @ '' Views'')
      = Some (map (\<lambda>d. CountCell (if d \<in> fst ` set views1
                                  then snd (last (filter (\<lambda>p. fst p = d) views1)) else 0))
               (sorted_list_of_set (fst ` set views1 \<union> fst ` set views2)))"
    using assms by (simp add: map_of_make_frame merge_columns_eq py_get_last comp_def)
  show "\<forall>(label, col) \<in> set (make_frame title1 title2 views1 views2).
           length col = length (sorted_list_of_set (fst ` set views1 \<union> fst ` set views2))"
  proof (cases "title1 = title2")
    case True
    then show ?thesis
      by (simp add: make_frame_same_title merge_columns_eq)
  next
    case False
    then show ?thesis
      by (simp add: make_frame_distinct_titles merge_columns_eq)
  qed
qed

lemma process_inputs_table:
  assumes "process_inputs e st url1 url2 start_date end_date = (Inr (df, fig, msg), st')"
  shows "\<exists>s d title1 title2 views1 views2 st1.
      dates_used e start_date end_date = Inr (s, d) \<and>
      validate_date s = Inr s \<and> validate_date d = Inr d \<and>
      extract_title url1 = Inr title1 \<and> extract_title url2 = Inr title2 \<and>
      get_pageviews e st title1 s d = (Inr views1, st1) \<and>
      get_pageviews e st1 title2 s d = (Inr views2, st') \<and>
      df = make_frame title1 title2 views1 views2"
proof -
  from assms obtain s d where du: "dates_used e start_date end_date = Inr (s, d)"
    by (auto simp: process_inputs_def split: sum.splits)
  from assms du obtain s' where vs: "validate_date s = Inr s'"
    by (auto simp: process_inputs_def split: sum.splits)
  then have s': "s' = s" by (rule validate_date_Inr)
  from assms du vs obtain d' where vd: "validate_date d = Inr d'"
    by (auto simp: process_inputs_def split: sum.splits)
  then have d': "d' = d" by (rule validate_date_Inr)
  from assms du vs vd obtain title1 where t1: "extract_title url1 = Inr title1"
    by (auto simp: process_inputs_def split: sum.splits)
  from assms du vs vd t1 obtain title2 where t2: "extract_title url2 = Inr title2"
    by (auto simp: process_inputs_def split: sum.splits)
  obtain r1 st1 where g1: "get_pageviews e st title1 s d = (r1, st1)"
    by (cases "get_pageviews e st title1 s d")
  obtain r2 st2 where g2: "get_pageviews e st1 title2 s d = (r2, st2)"
    by (cases "get_pageviews e st1 title2 s d")
  from assms obtain views1 where r1: "r1 = Inr views1"
    unfolding process_inputs_def du
    by (cases r1) (simp_all add: vs[unfolded s'] vd[unfolded d'] t1 t2 g1)
  from assms obtain views2 where r2: "r2 = Inr views2"
    unfolding process_inputs_def du
    by (cases r2) (simp_all add: vs[unfolded s'] vd[unfolded d'] t1 t2 g1 r1 g2)
  from assms have "st2 = st' \<and> df = make_frame title1 title2 views1 views2"
    unfolding process_inputs_def du
    by (simp add: vs[unfolded s'] vd[unfolded d'] t1 t2 g1 r1 g2 r2 Let_def split: sum.splits)
  with du vs vd t1 t2 g1 g2 r1 r2 s' d' show ?thesis by blast
qed

lemma make_frame_labels:
  "set (map fst (make_frame title1 title2 views1 views2)) =
     {''Date'', title1 @ '' Views'', title2 @ '' Views''}
   \<and> distinct (map fst (make_frame title1 title2 views1 views2))"
proof (cases "title1 = title2")
  case True
  then show ?thesis
    using date_label_not_views[of title2]
    by (simp add: make_frame_same_title merge_columns_eq)
next
  case False
  then show ?thesis
    using date_label_not_views[of title1] date_label_not_views[of title2]
    by (auto simp: make_frame_distinct_titles merge_columns_eq)
qed

text \<open>
  Claim C10. For every submission that succeeds, with the two series as the fetcher
  returned them (a series may hold a date more than once): the table's date column holds
  the dates of either series, each once and in ascending order, every column has one
  cell per date, and the column labelled with an article's title holds, for each date
  the article's series has, the count of the last pair with that date in the series (and
  0 for a date it lacks).
\<close>

theorem handler_table_one_row_per_date:
  assumes "process_inputs e st url1 url2 start_date end_date = (Inr (df, fig, msg), st')"
  shows "\<exists>s d title1 title2 views1 views2 st1 all_dates.
      dates_used e start_date end_date = Inr (s, d) \<and>
      extract_title url1 = Inr title1 \<and> extract_title url2 = Inr title2 \<and>
      get_pageviews e st title1 s d = (Inr views1, st1) \<and>
      get_pageviews e st1 title2 s d = (Inr views2, st') \<and>
      map_of df ''Date'' = Some (map DateCell all_dates) \<and>
      distinct all_dates \<and> sorted_wrt (<) all_dates \<and>
      set all_dates = fst ` set views1 \<union> fst ` set views2 \<and>
      map_of df (title1 @ '' Views'') =
        Some (map (\<lambda>d. CountCell (if d \<in> fst ` set views1
                                   then snd (last (filter (\<lambda>p. fst p = d) views1)) else 0))
                all_dates) \<and>
      map_of df (title2 @ '' Views'') =
        Some (map (\<lambda>d. CountCell (if d \<in> fst ` set views2
                                   then snd (last (filter (\<lambda>p. fst p = d) views2)) else 0))
                all_dates) \<and>
      set (map fst df) = {''Date'', title1 @ '' Views'', title2 @ '' Views''} \<and>
      distinct (map fst df) \<and>
      (\<forall>(label, col) \<in> set df. length col = length all_dates)"
proof -
  from process_inputs_table[OF assms] obtain s d title1 title2 views1 views2 st1 where
    du: "dates_used e start_date end_date = Inr (s, d)"
    and t: "extract_title url1 = Inr title1" "extract_title url2 = Inr title2"
    and g1: "get_pageviews e st title1 s d = (Inr views1, st1)"
    and g2: "get_pageviews e st1 title2 s d = (Inr views2, st')"
    and df: "df = make_frame title1 title2 views1 views2"
    by blast
  let ?D = "sorted_list_of_set (fst ` set views1 \<union> fst ` set views2)"
  have same: "title1 = title2 \<longrightarrow> views1 = views2"
    using get_pageviews_again[OF g1] g2 by auto
  note cols = make_frame_table[OF same]
  have D: "distinct ?D" "sorted_wrt (<) ?D" "set ?D = fst ` set views1 \<union> fst ` set views2"
    by simp_all
  note labels = make_frame_labels[of title1 title2 views1 views2, folded df]
  show ?thesis
    by (intro exI conjI)
      (rule du t g1 g2 cols(1)[folded df] D cols(2)[folded df] cols(3)[folded df]
         conjunct1[OF labels] conjunct2[OF labels] cols(4)[folded df])+
qed

text \<open>
  Witness for C10: the endpoint serves two items of 2 March, with counts 5 and then 9,
  and one of 1 March.
\<close>

theorem handler_table_one_row_per_date_witness:
  "fst (process_inputs
          (test_env (\<lambda>n url. Items [(''2024030200'', 5), (''2024030100'', 7), (''2024030212'', 9)]))
          initial_state ''https://en.wikipedia.org/wiki/A'' ''https://en.wikipedia.org/wiki/B'' [] [])
     = Inr ([(''Date'', [DateCell ''20240301'', DateCell ''20240302'']),
             (''A Views'', [CountCell 7, CountCell 9]),
             (''B Views'', [CountCell 7, CountCell 9])],
            (), ''Analysis completed successfully!'')
   \<and> (\<exists>all_dates.
         map_of [(''Date'', [DateCell ''20240301'', DateCell ''20240302'']),
                 (''A Views'', [CountCell 7, CountCell 9]),
                 (''B Views'', [CountCell 7, CountCell 9])] ''Date''
           = Some (map DateCell all_dates)
         \<and> distinct all_dates)
   \<and> snd (last (filter (\<lambda>p. fst p = ''20240302'')
                  [(''20240302'', 5::int), (''20240301'', 7), (''20240302'', 9)])) = 9"
proof -
  let ?E = "test_env (\<lambda>n url. Items [(''2024030200'', 5), (''2024030100'', 7), (''2024030212'', 9)])"
  let ?A = "''https://en.wikipedia.org/wiki/A''"
  let ?B = "''https://en.wikipedia.org/wiki/B''"
  let ?df = "[(''Date'', [DateCell ''20240301'', DateCell ''20240302'']),
             (''A Views'', [CountCell 7, CountCell 9]),
             (''B Views'', [CountCell 7, CountCell 9])]"
  have f: "fst (process_inputs ?E initial_state ?A ?B [] [])
      = Inr (?df, (), ''Analysis completed successfully!'')"
    by (simp add: run_defs test_frame_duplicates)
  have h: "process_inputs ?E initial_state ?A ?B [] []
      = (Inr (?df, (), ''Analysis completed successfully!''),
         snd (process_inputs ?E initial_state ?A ?B [] []))"
    by (rule prod_eqI) (simp_all only: fst_conv snd_conv f)
  from handler_table_one_row_per_date[OF h]
  have d: "\<exists>all_dates. map_of ?df ''Date'' = Some (map DateCell all_dates) \<and> distinct all_dates"
    by blast
  have l: "snd (last (filter (\<lambda>p. fst p = ''20240302'')
                  [(''20240302'', 5::int), (''20240301'', 7), (''20240302'', 9)])) = 9"
    by simp
  show ?thesis
    using f d l by blast
qed

text \<open>
  With two titles that differ, the table has the date column and one count column for
  each article.
\<close>

lemma handler_table_three_columns:
  assumes "process_inputs e st url1 url2 start_date end_date = (Inr (df, fig, msg), st')"
    and "extract_title url1 = Inr title1" and "extract_title url2 = Inr title2"
    and "title1 \<noteq> title2"
  shows "map fst df = [''Date'', title1 @ '' Views'', title2 @ '' Views'']"
  using process_inputs_table[OF assms(1)] assms(2-4)
  by (auto simp: make_frame_distinct_titles merge_columns_eq)

text \<open>
  Claim C1. The claim gives each row of the handler's table two count values, one for
  each series. The count columns are keyed by the labels made from the titles (lines
  69-70), so when both URLs name the same article the dict of line 67 keeps one count
  column: for the same URL given twice the table has the date column and a single count
  column, against the three headers of line 134 and the two series of line 77.
\<close>

theorem same_title_single_count_column:
  "fst (wrapped_process (test_env counting_remote) initial_state
          ''https://en.wikipedia.org/wiki/A'' ''https://en.wikipedia.org/wiki/A'' [] [])
     = ([(''Date'', [DateCell ''20240301'', DateCell ''20240302'']),
         (''A Views'', [CountCell 0, CountCell 7])],
        Some (), ''Analysis completed successfully!'')"
  by (simp add: wrapped_process_def run_defs counting_remote_def test_frame_same_title)

end
